theory Spec2Isabelle
  imports Main "HOL-Library.Sublist"
begin

section \<open>Data model (shared/schema.ts)\<close>

text \<open>
  \<^verbatim>\<open>export type DecisionType = "update" | "rewrite" | "create" | "delete";\<close>
\<close>

datatype DecisionType = Update | Rewrite | Create | Delete

text \<open>
  \<^verbatim>\<open>SessionConfig\<close>: the numeric fields are TypeScript \<^verbatim>\<open>number\<close>s. Nothing
  validates them (PATCH /api/sessions/:id stores any request body), so they are modelled
  as integers of either sign. The model covers integer values that JavaScript compares
  exactly and prints in plain decimal notation.
\<close>

record SessionConfig =
  maxIterationsPerUpdate :: int
  maxLinesForUpdate :: int
  maxLocationsForUpdate :: int
  charThresholdForArtifact :: int
  lineThresholdForArtifact :: int
  blockLocalStorage :: bool
  blockSessionStorage :: bool
  blockHtmlForms :: bool
  preferredStack :: "string list"

definition DEFAULT_SESSION_CONFIG :: SessionConfig where
  "DEFAULT_SESSION_CONFIG =
     \<lparr> maxIterationsPerUpdate = 4,
       maxLinesForUpdate = 20,
       maxLocationsForUpdate = 5,
       charThresholdForArtifact = 1500,
       lineThresholdForArtifact = 20,
       blockLocalStorage = True,
       blockSessionStorage = True,
       blockHtmlForms = True,
       preferredStack = [''react'', ''typescript'', ''express'', ''tailwindcss''] \<rparr>"

text \<open>Only the fields of a session, an artifact and a decision that the handler reads.\<close>

record Session =
  session_id :: string
  config :: SessionConfig

record Artifact =
  artifact_sessionId :: string
  content :: string

text \<open>
  The timestamp of a decision is kept as what \<^verbatim>\<open>new Date(d.timestamp).getTime()\<close>
  returns: milliseconds since the epoch.
\<close>

record Decision =
  decision_sessionId :: string
  decision_artifactId :: string
  decision_type :: DecisionType
  timestamp :: int

text \<open>
  \<^verbatim>\<open>MemStorage\<close>: maps from identifiers to sessions and artifacts, and the values
  of the decisions map in insertion order.
\<close>

record MemStorage =
  sessions :: "string \<rightharpoonup> Session"
  artifacts :: "string \<rightharpoonup> Artifact"
  decisions :: "Decision list"

definition getSession :: "MemStorage \<Rightarrow> string \<Rightarrow> Session option" where
  "getSession st sid = sessions st sid"

definition getArtifact :: "MemStorage \<Rightarrow> string \<Rightarrow> Artifact option" where
  "getArtifact st aid = artifacts st aid"

text \<open>
  \<^verbatim>\<open>Array.from(this.decisions.values()).filter(d => d.sessionId === sessionId)
     .sort((a, b) => b.timestamp.getTime() - a.timestamp.getTime())\<close>:
  a stable sort, newest first.
\<close>

definition getDecisions :: "MemStorage \<Rightarrow> string \<Rightarrow> Decision list" where
  "getDecisions st sid =
     sort_key (\<lambda>d. - timestamp d) (filter (\<lambda>d. decision_sessionId d = sid) (decisions st))"

section \<open>The diff loop (server/routes.ts, lines 308-327)\<close>

text \<open>
  \<^verbatim>\<open>content.split('\n')\<close>: the pieces between line feeds; the empty string gives one
  empty line, and a trailing line feed gives a last empty line.
\<close>

fun split_lines :: "string \<Rightarrow> string list" where
  "split_lines [] = [[]]"
| "split_lines (c # cs) =
     (if c = CHR 0x0A then [] # split_lines cs
      else (case split_lines cs of
              [] \<Rightarrow> [[c]]
            | l # ls \<Rightarrow> (c # l) # ls))"

text \<open>
  \<^verbatim>\<open>lines[i]\<close>: reading a JavaScript array past its end gives \<^verbatim>\<open>undefined\<close>,
  here \<open>None\<close>; \<^verbatim>\<open>!==\<close> then compares two values that are a string or undefined.
\<close>

definition line_at :: "string list \<Rightarrow> nat \<Rightarrow> string option" where
  "line_at ls i = (if i < length ls then Some (ls ! i) else None)"

record DiffStats =
  linesChanged :: nat
  locationsChanged :: nat

text \<open>
  The state of the loop is the three \<^verbatim>\<open>let\<close> variables
  \<^verbatim>\<open>linesChanged\<close>, \<^verbatim>\<open>locationsChanged\<close>, \<^verbatim>\<open>inChangeBlock\<close>:
  \<^verbatim>\<open>
  for (let i = 0; i < maxLength; i++) {
    if (oldLines[i] !== newLines[i]) {
      linesChanged++;
      if (!inChangeBlock) { locationsChanged++; inChangeBlock = true; }
    } else {
      inChangeBlock = false;
    }
  }
  \<close>
\<close>

function diff_loop ::
  "string list \<Rightarrow> string list \<Rightarrow> nat \<Rightarrow> nat \<Rightarrow> nat \<times> nat \<times> bool \<Rightarrow> nat \<times> nat \<times> bool"
where
  "diff_loop oldLines newLines maxLength i (lc, loc, inChangeBlock) =
     (if i < maxLength then
        (if line_at oldLines i \<noteq> line_at newLines i then
           (if \<not> inChangeBlock
            then diff_loop oldLines newLines maxLength (Suc i) (Suc lc, Suc loc, True)
            else diff_loop oldLines newLines maxLength (Suc i) (Suc lc, loc, inChangeBlock))
         else diff_loop oldLines newLines maxLength (Suc i) (lc, loc, False))
      else (lc, loc, inChangeBlock))"
  by pat_completeness auto
termination
  by (relation "measure (\<lambda>(oldLines, newLines, maxLength, i, s). maxLength - i)") auto

text \<open>
  The handler has the loop inline; \<open>computeDiffStats\<close> is the name the specification
  gives to it: the two counters after the loop, started from 0, 0 and \<^verbatim>\<open>false\<close> with
  \<^verbatim>\<open>maxLength = Math.max(oldLines.length, newLines.length)\<close>.
\<close>

definition computeDiffStats :: "string list \<Rightarrow> string list \<Rightarrow> DiffStats" where
  "computeDiffStats oldLines newLines =
     (case diff_loop oldLines newLines (max (length oldLines) (length newLines)) 0 (0, 0, False) of
        (lc, loc, inChangeBlock) \<Rightarrow> \<lparr> linesChanged = lc, locationsChanged = loc \<rparr>)"

section \<open>The decision rule and the recommendation (server/routes.ts, lines 329-354)\<close>

text \<open>
  A template literal prints an integer in decimal, with a leading minus sign when it is
  negative.
\<close>

definition digit_char :: "nat \<Rightarrow> char" where
  "digit_char d = ''0123456789'' ! d"

function show_nat :: "nat \<Rightarrow> string" where
  "show_nat n = (if n < 10 then [digit_char n] else show_nat (n div 10) @ [digit_char (n mod 10)])"
  by pat_completeness auto
termination
  by (relation "measure (\<lambda>n. n)") auto

definition show_int :: "int \<Rightarrow> string" where
  "show_int k = (if k < 0 then CHR ''-'' # show_nat (nat (- k)) else show_nat (nat k))"

text \<open>
  \<^verbatim>\<open>String.prototype.trim\<close> removes white space at both ends. Of the characters
  JavaScript counts as white space, the ones below 128 are listed: tab, line feed, vertical
  tab, form feed, carriage return and space.
\<close>

definition is_space :: "char \<Rightarrow> bool" where
  "is_space c = (c = CHR 0x09 \<or> c = CHR 0x0A \<or> c = CHR 0x0B \<or> c = CHR 0x0C \<or> c = CHR 0x0D \<or> c = CHR '' '')"

definition trim :: "string \<Rightarrow> string" where
  "trim s = rev (dropWhile is_space (rev (dropWhile is_space s)))"

record Recommendation =
  decisionType :: DecisionType
  rec_linesChanged :: nat
  rec_locationsChanged :: nat
  currentIterations :: nat
  maxIterations :: int
  reasoning :: string

text \<open>
  \<^verbatim>\<open>shouldUpdate\<close>; \<open>recentUpdateCount\<close> stands for \<^verbatim>\<open>recentUpdates.length\<close>,
  the length of an array.
\<close>

definition shouldUpdate :: "DiffStats \<Rightarrow> SessionConfig \<Rightarrow> nat \<Rightarrow> bool" where
  "shouldUpdate stats cfg recentUpdateCount =
     (int (linesChanged stats) \<le> maxLinesForUpdate cfg \<and>
      int (locationsChanged stats) \<le> maxLocationsForUpdate cfg \<and>
      int recentUpdateCount < maxIterationsPerUpdate cfg)"

definition update_reasoning :: "DiffStats \<Rightarrow> SessionConfig \<Rightarrow> nat \<Rightarrow> string" where
  "update_reasoning stats cfg recentUpdateCount =
     ''Change is small enough ('' @ show_nat (linesChanged stats) @ '' lines, '' @
     show_nat (locationsChanged stats) @ '' locations) for an update. Iteration '' @
     show_nat (recentUpdateCount + 1) @ ''/'' @ show_int (maxIterationsPerUpdate cfg) @ ''.''"

definition rewrite_reasoning :: "DiffStats \<Rightarrow> SessionConfig \<Rightarrow> nat \<Rightarrow> string" where
  "rewrite_reasoning stats cfg recentUpdateCount =
     trim (''Change requires rewrite: '' @
       (if int (linesChanged stats) > maxLinesForUpdate cfg
        then show_nat (linesChanged stats) @ '' lines exceeds '' @
             show_int (maxLinesForUpdate cfg) @ '' limit''
        else '''') @
       '' '' @
       (if int (locationsChanged stats) > maxLocationsForUpdate cfg
        then show_nat (locationsChanged stats) @ '' locations exceeds '' @
             show_int (maxLocationsForUpdate cfg) @ '' limit''
        else '''') @
       '' '' @
       (if int recentUpdateCount \<ge> maxIterationsPerUpdate cfg
        then ''Max iterations reached''
        else ''''))"

text \<open>
  The object \<^verbatim>\<open>recommendation\<close> that the handler answers with; \<open>classify\<close> and
  \<open>evaluate\<close> are the names the specification gives to this part of the handler and to
  its composition with the loop.
\<close>

definition classify :: "DiffStats \<Rightarrow> SessionConfig \<Rightarrow> nat \<Rightarrow> Recommendation" where
  "classify stats cfg recentUpdateCount =
     \<lparr> decisionType = (if shouldUpdate stats cfg recentUpdateCount then Update else Rewrite),
       rec_linesChanged = linesChanged stats,
       rec_locationsChanged = locationsChanged stats,
       currentIterations = recentUpdateCount,
       maxIterations = maxIterationsPerUpdate cfg,
       reasoning = (if shouldUpdate stats cfg recentUpdateCount
                    then update_reasoning stats cfg recentUpdateCount
                    else rewrite_reasoning stats cfg recentUpdateCount) \<rparr>"

definition evaluate :: "string list \<Rightarrow> string list \<Rightarrow> SessionConfig \<Rightarrow> nat \<Rightarrow> Recommendation" where
  "evaluate before after cfg recentUpdateCount =
     classify (computeDiffStats before after) cfg recentUpdateCount"

section \<open>The handler of POST /api/analyze-change (server/routes.ts, lines 295-357)\<close>

datatype http_error = ArtifactNotFound | SessionNotFound

text \<open>
  \<^verbatim>\<open>recentDecisions.filter(d => d.artifactId === artifactId && d.type === "update" &&
       Date.now() - new Date(d.timestamp).getTime() < 3600000)\<close>;
  \<open>now\<close> is the value of \<^verbatim>\<open>Date.now()\<close>.
\<close>

definition recentUpdates :: "MemStorage \<Rightarrow> int \<Rightarrow> string \<Rightarrow> string \<Rightarrow> Decision list" where
  "recentUpdates st now sid artifactId =
     filter (\<lambda>d. decision_artifactId d = artifactId \<and> decision_type d = Update \<and>
                 now - timestamp d < 3600000)
            (getDecisions st sid)"

definition analyze_change ::
  "MemStorage \<Rightarrow> int \<Rightarrow> string \<Rightarrow> string \<Rightarrow> http_error + Recommendation"
where
  "analyze_change st now artifactId newContent =
     (case getArtifact st artifactId of
        None \<Rightarrow> Inl ArtifactNotFound
      | Some artifact \<Rightarrow>
          (case getSession st (artifact_sessionId artifact) of
             None \<Rightarrow> Inl SessionNotFound
           | Some session \<Rightarrow>
               Inr (classify
                      (computeDiffStats (split_lines (content artifact)) (split_lines newContent))
                      (config session)
                      (length (recentUpdates st now (session_id session) artifactId)))))"

section \<open>The diff statistics as the specification words them\<close>

text \<open>
  Index \<open>i\<close> is a difference when it lies past the end of either sequence or the two
  lines there are different strings.
\<close>

definition differs :: "string list \<Rightarrow> string list \<Rightarrow> nat \<Rightarrow> bool" where
  "differs before after i = (i \<ge> length before \<or> i \<ge> length after \<or> before ! i \<noteq> after ! i)"

text \<open>The differing indices below the longer length, in increasing order.\<close>

definition spec_changed_indices :: "string list \<Rightarrow> string list \<Rightarrow> nat list" where
  "spec_changed_indices before after =
     filter (\<lambda>i. differs before after i) [0..<max (length before) (length after)]"

text \<open>
  The first index of every maximal run of differing indices: a differing index that is not
  immediately preceded by a differing index.
\<close>

definition spec_run_starts :: "string list \<Rightarrow> string list \<Rightarrow> nat list" where
  "spec_run_starts before after =
     filter (\<lambda>i. differs before after i \<and> (i = 0 \<or> \<not> differs before after (i - 1)))
       [0..<max (length before) (length after)]"

section \<open>Auxiliary notions for the rationale strings\<close>

text \<open>The characters that the decimal rendering of an integer can contain.\<close>

definition is_num_char :: "char \<Rightarrow> bool" where
  "is_num_char c = (c \<in> set ''-0123456789'')"

definition numeric :: "string \<Rightarrow> bool" where
  "numeric d = (d \<noteq> [] \<and> (\<forall>c\<in>set d. is_num_char c))"

section \<open>Example data\<close>

text \<open>
  A store with one session \<open>s1\<close> of the given configuration, one artifact \<open>a1\<close> of three
  lines in that session, and the given decisions.
\<close>

definition example_storage :: "SessionConfig \<Rightarrow> Decision list \<Rightarrow> MemStorage" where
  "example_storage cfg ds =
     \<lparr> sessions = [''s1'' \<mapsto> \<lparr> session_id = ''s1'', config = cfg \<rparr>],
       artifacts = [''a1'' \<mapsto> \<lparr> artifact_sessionId = ''s1'',
                                  content = ''a'' @ [CHR 0x0A] @ ''b'' @ [CHR 0x0A] @ ''c'' \<rparr>],
       decisions = ds \<rparr>"

definition example_update :: "int \<Rightarrow> Decision" where
  "example_update t =
     \<lparr> decision_sessionId = ''s1'', decision_artifactId = ''a1'',
       decision_type = Update, timestamp = t \<rparr>"

declare diff_loop.simps [simp del]
declare show_nat.simps [simp del]

section \<open>The diff loop computes the specified counts\<close>

lemma line_at_differs:
  "i < max (length b) (length a) \<Longrightarrow> (line_at b i \<noteq> line_at a i) = differs b a i"
  by (auto simp: line_at_def differs_def)

lemma diff_loop_exit: "m \<le> i \<Longrightarrow> diff_loop b a m i (lc, loc, inb) = (lc, loc, inb)"
  by (subst diff_loop.simps) simp

lemma diff_loop_counts:
  "i + k = m \<Longrightarrow> m = max (length b) (length a) \<Longrightarrow> inb = (i > 0 \<and> differs b a (i - 1)) \<Longrightarrow>
   fst (diff_loop b a m i (lc, loc, inb)) = lc + length (filter (\<lambda>j. differs b a j) [i..<m]) \<and>
   fst (snd (diff_loop b a m i (lc, loc, inb))) =
      loc + length (filter (\<lambda>j. differs b a j \<and> (j = 0 \<or> \<not> differs b a (j - 1))) [i..<m])"
proof (induction k arbitrary: i lc loc inb)
  case 0
  then have "m \<le> i" by simp
  then show ?case by (simp add: diff_loop_exit)
next
  case (Suc k)
  have lt: "i < m" using Suc.prems(1) by simp
  have up: "[i..<m] = i # [Suc i..<m]" using lt by (simp add: upt_conv_Cons)
  have d: "(line_at b i \<noteq> line_at a i) = differs b a i"
    using lt Suc.prems(2) line_at_differs by blast
  have step: "Suc i + k = m" using Suc.prems(1) by simp
  show ?case
  proof (cases "differs b a i")
    case True
    have nxt: "True = (Suc i > 0 \<and> differs b a (Suc i - 1))" using True by simp
    show ?thesis
    proof (cases inb)
      case True
      note inb = this
      have "diff_loop b a m i (lc, loc, inb) = diff_loop b a m (Suc i) (Suc lc, loc, True)"
        using lt d \<open>differs b a i\<close> inb by (simp add: diff_loop.simps [of b a m i])
      moreover have "i \<noteq> 0 \<and> differs b a (i - 1)" using inb Suc.prems(3) by simp
      ultimately show ?thesis
        using Suc.IH [OF step Suc.prems(2) nxt, of "Suc lc" loc] up \<open>differs b a i\<close> by simp
    next
      case False
      note inb = this
      have "diff_loop b a m i (lc, loc, inb) = diff_loop b a m (Suc i) (Suc lc, Suc loc, True)"
        using lt d \<open>differs b a i\<close> inb by (simp add: diff_loop.simps [of b a m i])
      moreover have "i = 0 \<or> \<not> differs b a (i - 1)" using inb Suc.prems(3) by auto
      ultimately show ?thesis
        using Suc.IH [OF step Suc.prems(2) nxt, of "Suc lc" "Suc loc"] up \<open>differs b a i\<close> by simp
    qed
  next
    case False
    have nxt: "False = (Suc i > 0 \<and> differs b a (Suc i - 1))" using False by simp
    have "diff_loop b a m i (lc, loc, inb) = diff_loop b a m (Suc i) (lc, loc, False)"
      using lt d False by (simp add: diff_loop.simps [of b a m i])
    then show ?thesis
      using Suc.IH [OF step Suc.prems(2) nxt, of lc loc] up False by simp
  qed
qed


lemma computeDiffStats_fields:
  "linesChanged (computeDiffStats b a) = fst (diff_loop b a (max (length b) (length a)) 0 (0, 0, False))"
  "locationsChanged (computeDiffStats b a) =
     fst (snd (diff_loop b a (max (length b) (length a)) 0 (0, 0, False)))"
  by (simp_all add: computeDiffStats_def split: prod.splits)

lemma computeDiffStats_spec:
  "linesChanged (computeDiffStats b a) = length (spec_changed_indices b a)"
  "locationsChanged (computeDiffStats b a) = length (spec_run_starts b a)"
  using diff_loop_counts [of 0 "max (length b) (length a)" "max (length b) (length a)" b a False 0 0]
  by (simp_all add: computeDiffStats_fields spec_changed_indices_def spec_run_starts_def)

lemma set_spec_changed_indices:
  "set (spec_changed_indices b a) = {i. i < max (length b) (length a) \<and> differs b a i}"
  "distinct (spec_changed_indices b a)"
  by (auto simp: spec_changed_indices_def)

lemma set_spec_run_starts:
  "set (spec_run_starts b a) =
     {i. i < max (length b) (length a) \<and> differs b a i \<and> (i = 0 \<or> \<not> differs b a (i - 1))}"
  "distinct (spec_run_starts b a)"
  by (auto simp: spec_run_starts_def)

lemma differs_sym: "differs b a i = differs a b i"
  by (auto simp: differs_def)

lemma no_change_iff_equal:
  "spec_changed_indices b a = [] \<longleftrightarrow> b = a"
proof
  assume e: "spec_changed_indices b a = []"
  have nd: "\<not> differs b a i" if "i < max (length b) (length a)" for i
    using e that by (auto simp: spec_changed_indices_def filter_empty_conv)
  have len: "length b = length a"
  proof (rule ccontr)
    assume "length b \<noteq> length a"
    then have "min (length b) (length a) < max (length b) (length a)" by auto
    from nd [OF this] show False by (auto simp: differs_def min_def split: if_splits)
  qed
  show "b = a"
  proof (rule nth_equalityI [OF len])
    fix i assume "i < length b"
    then have "\<not> differs b a i" using nd [of i] by simp
    then show "b ! i = a ! i" by (simp add: differs_def)
  qed
next
  assume "b = a"
  then show "spec_changed_indices b a = []"
    by (auto simp: spec_changed_indices_def filter_empty_conv differs_def)
qed

lemma no_run_iff_no_change:
  "spec_run_starts b a = [] \<longleftrightarrow> spec_changed_indices b a = []"
proof
  assume r: "spec_run_starts b a = []"
  show "spec_changed_indices b a = []"
  proof (rule ccontr)
    assume "spec_changed_indices b a \<noteq> []"
    then obtain i where "i \<in> set (spec_changed_indices b a)"
      by (meson last_in_set)
    then have ex: "\<exists>i. i < max (length b) (length a) \<and> differs b a i"
      by (auto simp: set_spec_changed_indices)
    define j where "j = (LEAST i. i < max (length b) (length a) \<and> differs b a i)"
    have j: "j < max (length b) (length a) \<and> differs b a j"
      unfolding j_def using ex by (rule LeastI_ex)
    have "\<not> differs b a (j - 1)" if "j \<noteq> 0"
    proof
      assume "differs b a (j - 1)"
      then have "j \<le> j - 1"
        unfolding j_def using j by (intro Least_le) (auto simp: j_def)
      with that show False by simp
    qed
    then have "j \<in> set (spec_run_starts b a)"
      using j by (auto simp: set_spec_run_starts)
    with r show False by simp
  qed
next
  assume "spec_changed_indices b a = []"
  then show "spec_run_starts b a = []"
    by (auto simp: spec_changed_indices_def spec_run_starts_def filter_empty_conv)
qed

lemma run_starts_le_changed:
  "length (spec_run_starts b a) \<le> length (spec_changed_indices b a)"
proof -
  have "spec_run_starts b a =
        filter (\<lambda>i. i = 0 \<or> \<not> differs b a (i - 1)) (spec_changed_indices b a)"
    by (simp add: spec_run_starts_def spec_changed_indices_def conj_commute)
  then show ?thesis by simp
qed

lemma changed_le_max:
  "length (spec_changed_indices b a) \<le> max (length b) (length a)"
proof -
  have "length (spec_changed_indices b a) \<le> length [0..<max (length b) (length a)]"
    unfolding spec_changed_indices_def by (rule length_filter_le)
  then show ?thesis by simp
qed

text \<open>
  C2. For every pair of line sequences, the loop returns as \<open>linesChanged\<close> the number of
  indices below the longer length at which the two sequences differ (an index past the end
  of the shorter one is a difference), and as \<open>locationsChanged\<close> the number of maximal runs
  of such indices, a run being counted at each differing index that is not immediately
  preceded by a differing index. The two lists of indices are duplicate-free and hold
  exactly those indices (\<open>set_spec_changed_indices\<close>, \<open>set_spec_run_starts\<close>), so their
  lengths are these numbers.
\<close>

theorem diff_loop_refines_spec:
  "linesChanged (computeDiffStats before after) = length (spec_changed_indices before after)
   \<and> locationsChanged (computeDiffStats before after) = length (spec_run_starts before after)"
  by (simp add: computeDiffStats_spec)

lemma upt_5: "[0..<5] = [0, 1, 2, 3, 4]"
  by (simp add: upt_rec)

theorem diff_loop_refines_spec_witness:
  "linesChanged (computeDiffStats [''a'', ''b'', ''c'', ''d'', ''e''] [''a'', ''X'', ''Y'', ''Z'', ''e'']) = 3
   \<and> locationsChanged (computeDiffStats [''a'', ''b'', ''c'', ''d'', ''e''] [''a'', ''X'', ''Y'', ''Z'', ''e'']) = 1
   \<and> linesChanged (computeDiffStats [''x'', ''b'', ''c'', ''d'', ''y''] [''a'', ''b'', ''c'', ''d'', ''e'']) = 2
   \<and> locationsChanged (computeDiffStats [''x'', ''b'', ''c'', ''d'', ''y''] [''a'', ''b'', ''c'', ''d'', ''e'']) = 2"
  using diff_loop_refines_spec [of "[''a'', ''b'', ''c'', ''d'', ''e'']" "[''a'', ''X'', ''Y'', ''Z'', ''e'']"]
        diff_loop_refines_spec [of "[''x'', ''b'', ''c'', ''d'', ''y'']" "[''a'', ''b'', ''c'', ''d'', ''e'']"]
  by (simp add: spec_changed_indices_def spec_run_starts_def differs_def upt_5)

text \<open>
  C9. For every pair of line sequences, \<open>locationsChanged\<close> is at most \<open>linesChanged\<close>, which
  is at most the longer of the two lengths (both are natural numbers, so at least 0);
  \<open>linesChanged\<close> is 0 exactly when the two sequences are equal, and so is
  \<open>locationsChanged\<close>.
\<close>

theorem diff_stats_bounds:
  "locationsChanged (computeDiffStats before after) \<le> linesChanged (computeDiffStats before after)
   \<and> linesChanged (computeDiffStats before after) \<le> max (length before) (length after)
   \<and> (linesChanged (computeDiffStats before after) = 0 \<longleftrightarrow> before = after)
   \<and> (locationsChanged (computeDiffStats before after) = 0 \<longleftrightarrow> before = after)"
  using run_starts_le_changed [of before after] changed_le_max [of before after]
        no_change_iff_equal [of before after] no_run_iff_no_change [of before after]
  by (simp add: computeDiffStats_spec)

theorem diff_stats_bounds_witness:
  "locationsChanged (computeDiffStats [''a'', ''b'', ''c''] [''a'', ''x'']) \<le>
     linesChanged (computeDiffStats [''a'', ''b'', ''c''] [''a'', ''x''])
   \<and> linesChanged (computeDiffStats [''a'', ''b'', ''c''] [''a'', ''x'']) \<le> 3
   \<and> linesChanged (computeDiffStats [''a'', ''b'', ''c''] [''a'', ''x'']) \<noteq> 0
   \<and> linesChanged (computeDiffStats [''a'', ''b''] [''a'', ''b'']) = 0
   \<and> locationsChanged (computeDiffStats [''a'', ''b''] [''a'', ''b'']) = 0"
  using diff_stats_bounds [of "[''a'', ''b'', ''c'']" "[''a'', ''x'']"]
        diff_stats_bounds [of "[''a'', ''b'']" "[''a'', ''b'']"]
  by simp

text \<open>
  C10. Swapping the two sequences changes neither \<open>linesChanged\<close> nor \<open>locationsChanged\<close>.
\<close>

theorem diff_stats_symmetric:
  "computeDiffStats before after = computeDiffStats after before"
proof -
  have "spec_changed_indices before after = spec_changed_indices after before"
    by (simp add: spec_changed_indices_def differs_sym [of before after] max.commute)
  moreover have "spec_run_starts before after = spec_run_starts after before"
    by (simp add: spec_run_starts_def differs_sym [of before after] max.commute)
  ultimately show ?thesis
    by (intro DiffStats.equality) (simp_all add: computeDiffStats_spec)
qed

lemma computeDiffStats_example:
  "computeDiffStats [''a'', ''b'', ''c''] [''a'', ''x''] = \<lparr> linesChanged = 2, locationsChanged = 1 \<rparr>"
  by (simp add: computeDiffStats_def diff_loop.simps line_at_def)

theorem diff_stats_symmetric_witness:
  "computeDiffStats [''a'', ''x''] [''a'', ''b'', ''c''] = \<lparr> linesChanged = 2, locationsChanged = 1 \<rparr>"
  using diff_stats_symmetric [of "[''a'', ''x'']" "[''a'', ''b'', ''c'']"]
  by (simp add: computeDiffStats_example)

lemma computeDiffStats_same:
  "computeDiffStats x x = \<lparr> linesChanged = 0, locationsChanged = 0 \<rparr>"
proof -
  have c: "spec_changed_indices x x = []" by (simp add: no_change_iff_equal)
  then have r: "spec_run_starts x x = []" by (simp add: no_run_iff_no_change)
  show ?thesis
    by (intro DiffStats.equality) (simp_all add: computeDiffStats_spec c r)
qed

lemma computeDiffStats_creation:
  assumes "after \<noteq> []"
  shows "computeDiffStats [] after = \<lparr> linesChanged = length after, locationsChanged = 1 \<rparr>"
proof -
  have d: "differs [] after i" for i by (simp add: differs_def)
  have c: "spec_changed_indices [] after = [0..<length after]"
    by (simp add: spec_changed_indices_def d)
  have up: "[0..<length after] = 0 # [1..<length after]"
    using assms by (simp add: upt_conv_Cons)
  have "filter (\<lambda>i. i = 0) [1..<length after] = []"
    by (auto simp: filter_empty_conv)
  then have r: "spec_run_starts [] after = [0]"
    by (simp add: spec_run_starts_def d up)
  show ?thesis
    by (intro DiffStats.equality) (simp_all add: computeDiffStats_spec c r)
qed

section \<open>Phrases in the rationale of a rewrite\<close>

lemma digit_char_num: "d < 10 \<Longrightarrow> is_num_char (digit_char d)"
proof -
  assume "d < 10"
  then have "d < length ''0123456789''" by simp
  then have "''0123456789'' ! d \<in> set ''0123456789''" by (rule nth_mem)
  then show ?thesis unfolding is_num_char_def digit_char_def by auto
qed

lemma show_nat_num: "c \<in> set (show_nat n) \<Longrightarrow> is_num_char c"
proof (induction n rule: show_nat.induct)
  case (1 n)
  show ?case
  proof (cases "n < 10")
    case True
    then show ?thesis using "1.prems" by (simp add: show_nat.simps [of n] digit_char_num)
  next
    case False
    then have "show_nat n = show_nat (n div 10) @ [digit_char (n mod 10)]"
      by (simp add: show_nat.simps [of n])
    then show ?thesis using "1.prems" "1.IH" False by (auto simp: digit_char_num)
  qed
qed

lemma show_nat_nonempty: "show_nat n \<noteq> []"
  by (subst show_nat.simps) simp

lemma show_int_num: "c \<in> set (show_int k) \<Longrightarrow> is_num_char c"
  by (auto simp: show_int_def is_num_char_def dest: show_nat_num split: if_splits)

lemma show_int_nonempty: "show_int k \<noteq> []"
  by (simp add: show_int_def show_nat_nonempty)

lemma numeric_show [simp]: "numeric (show_nat n)" "numeric (show_int k)"
  by (auto simp: numeric_def show_nat_nonempty show_int_nonempty show_nat_num show_int_num)

lemma prefix_numeric:
  "numeric d \<Longrightarrow> \<not> is_num_char c \<Longrightarrow> prefix (c # w) (d @ b) = False"
  by (cases d) (auto simp: numeric_def)

lemma sublist_numeric:
  "numeric d \<Longrightarrow> \<not> is_num_char c \<Longrightarrow> sublist (c # w) (d @ b) = sublist (c # w) b"
proof (induction d)
  case Nil
  then show ?case by (simp add: numeric_def)
next
  case (Cons x d)
  have x: "is_num_char x" and d: "\<forall>c\<in>set d. is_num_char c" using Cons.prems(1) by (auto simp: numeric_def)
  have np: "\<not> prefix (c # w) (x # d @ b)" using x Cons.prems(2) by auto
  show ?case
  proof (cases "d = []")
    case True
    then show ?thesis using np by (auto simp: sublist_Cons_right)
  next
    case False
    then have "numeric d" using d by (simp add: numeric_def)
    then show ?thesis using Cons.IH Cons.prems(2) np by (auto simp: sublist_Cons_right)
  qed
qed

lemma sublist_dropWhile_front:
  "\<not> P c \<Longrightarrow> sublist (c # w) (dropWhile P s) = sublist (c # w) s"
proof (induction s)
  case Nil
  then show ?case by simp
next
  case (Cons x s)
  then show ?case by (auto simp: sublist_Cons_right)
qed

lemma sublist_trim:
  assumes "w \<noteq> []" "\<not> is_space (hd w)" "\<not> is_space (last w)"
  shows "sublist w (trim s) = sublist w s"
proof -
  obtain c w' where w: "w = c # w'" using assms(1) by (cases w) auto
  obtain e r' where r: "rev w = e # r'" using assms(1) by (cases "rev w") auto
  have c: "\<not> is_space c" using assms(2) w by simp
  have "hd (rev w) = last w" using assms(1) by (simp add: hd_rev)
  then have e: "\<not> is_space e" using assms(3) r by simp
  have "sublist w (trim s) = sublist (rev w) (dropWhile is_space (rev (dropWhile is_space s)))"
    by (simp add: trim_def sublist_rev_right)
  also have "\<dots> = sublist (rev w) (rev (dropWhile is_space s))"
    unfolding r using e by (rule sublist_dropWhile_front)
  also have "\<dots> = sublist w (dropWhile is_space s)"
    by (simp add: sublist_rev_right)
  also have "\<dots> = sublist w s"
    unfolding w using c by (rule sublist_dropWhile_front)
  finally show ?thesis .
qed


lemmas mention_simps =
  rewrite_reasoning_def sublist_trim sublist_Cons_right sublist_numeric prefix_numeric
  is_num_char_def is_space_def

lemma rewrite_mentions_lines:
  "sublist ''lines exceeds'' (rewrite_reasoning stats cfg n)
     \<longleftrightarrow> int (linesChanged stats) > maxLinesForUpdate cfg"
  by (simp add: mention_simps)

lemma rewrite_mentions_locations:
  "sublist ''locations exceeds'' (rewrite_reasoning stats cfg n)
     \<longleftrightarrow> int (locationsChanged stats) > maxLocationsForUpdate cfg"
  by (simp add: mention_simps)

lemma rewrite_mentions_iterations:
  "sublist ''Max iterations reached'' (rewrite_reasoning stats cfg n)
     \<longleftrightarrow> int n \<ge> maxIterationsPerUpdate cfg"
  by (simp add: mention_simps)

section \<open>The decision rule\<close>

lemma decisionType_classify:
  "decisionType (classify stats cfg n) = (if shouldUpdate stats cfg n then Update else Rewrite)"
  by (simp add: classify_def)

text \<open>
  C1. For every pair of diff statistics, every threshold configuration and every recent
  update count, the decision is \<open>update\<close> exactly when the changed lines are at most
  \<open>maxLinesForUpdate\<close>, the changed locations are at most \<open>maxLocationsForUpdate\<close> and the
  recent update count is below \<open>maxIterationsPerUpdate\<close>; in every other case it is
  \<open>rewrite\<close>. This holds for thresholds of either sign, in particular for the
  non-negative ones.
\<close>

theorem classify_decision_rule:
  "(decisionType (classify \<lparr> linesChanged = lc, locationsChanged = loc \<rparr> cfg n) = Update
      \<longleftrightarrow> (int lc \<le> maxLinesForUpdate cfg \<and> int loc \<le> maxLocationsForUpdate cfg \<and>
           int n < maxIterationsPerUpdate cfg))
   \<and> (decisionType (classify \<lparr> linesChanged = lc, locationsChanged = loc \<rparr> cfg n) = Rewrite
      \<longleftrightarrow> \<not> (int lc \<le> maxLinesForUpdate cfg \<and> int loc \<le> maxLocationsForUpdate cfg \<and>
              int n < maxIterationsPerUpdate cfg))"
  by (simp add: decisionType_classify shouldUpdate_def)

theorem classify_decision_rule_witness:
  "decisionType (classify \<lparr> linesChanged = 3, locationsChanged = 1 \<rparr> DEFAULT_SESSION_CONFIG 0) = Update
   \<and> decisionType (classify \<lparr> linesChanged = 21, locationsChanged = 1 \<rparr> DEFAULT_SESSION_CONFIG 0) = Rewrite"
  using classify_decision_rule [of 3 1 DEFAULT_SESSION_CONFIG 0]
        classify_decision_rule [of 21 1 DEFAULT_SESSION_CONFIG 0]
  by (simp add: DEFAULT_SESSION_CONFIG_def)

text \<open>
  C5. The comparisons of lines and locations are inclusive and the comparison of
  iterations is strict. With no changed line and no changed location, a recent update
  count equal to \<open>maxIterationsPerUpdate\<close> gives \<open>rewrite\<close>, and a count equal to
  \<open>maxIterationsPerUpdate - 1\<close> (with \<open>maxIterationsPerUpdate\<close> at least 1) gives \<open>update\<close>;
  counts of lines and locations equal to their thresholds give \<open>update\<close> while the
  iteration count is below its cap. The thresholds of lines and locations range over the
  non-negative integers, as the data model of the specification has them.
\<close>

theorem classify_boundaries:
  "(linesChanged stats = 0 \<and> locationsChanged stats = 0 \<and>
      int n = maxIterationsPerUpdate cfg
      \<longrightarrow> decisionType (classify stats cfg n) = Rewrite)
   \<and> (linesChanged stats = 0 \<and> locationsChanged stats = 0 \<and>
      0 \<le> maxLinesForUpdate cfg \<and> 0 \<le> maxLocationsForUpdate cfg \<and>
      1 \<le> maxIterationsPerUpdate cfg \<and> int n = maxIterationsPerUpdate cfg - 1
      \<longrightarrow> decisionType (classify stats cfg n) = Update)
   \<and> (int (linesChanged stats) = maxLinesForUpdate cfg \<and>
      int (locationsChanged stats) = maxLocationsForUpdate cfg \<and>
      int n < maxIterationsPerUpdate cfg
      \<longrightarrow> decisionType (classify stats cfg n) = Update)"
  by (simp add: decisionType_classify shouldUpdate_def)

theorem classify_boundaries_witness:
  "decisionType (classify \<lparr> linesChanged = 0, locationsChanged = 0 \<rparr> DEFAULT_SESSION_CONFIG 4) = Rewrite
   \<and> decisionType (classify \<lparr> linesChanged = 0, locationsChanged = 0 \<rparr> DEFAULT_SESSION_CONFIG 3) = Update
   \<and> decisionType (classify \<lparr> linesChanged = 20, locationsChanged = 5 \<rparr> DEFAULT_SESSION_CONFIG 3) = Update"
  using classify_boundaries [of "\<lparr> linesChanged = 0, locationsChanged = 0 \<rparr>" 4 DEFAULT_SESSION_CONFIG]
        classify_boundaries [of "\<lparr> linesChanged = 0, locationsChanged = 0 \<rparr>" 3 DEFAULT_SESSION_CONFIG]
        classify_boundaries [of "\<lparr> linesChanged = 20, locationsChanged = 5 \<rparr>" 3 DEFAULT_SESSION_CONFIG]
  by (simp add: DEFAULT_SESSION_CONFIG_def)

text \<open>
  C6. If the decision is \<open>rewrite\<close> for some statistics, it is \<open>rewrite\<close> as well for any
  larger \<open>linesChanged\<close> with the same \<open>locationsChanged\<close>, and for any larger
  \<open>locationsChanged\<close> with the same \<open>linesChanged\<close>.
\<close>

theorem classify_monotone:
  "decisionType (classify \<lparr> linesChanged = lc, locationsChanged = loc \<rparr> cfg n) = Rewrite \<longrightarrow>
     (lc \<le> lc' \<longrightarrow>
        decisionType (classify \<lparr> linesChanged = lc', locationsChanged = loc \<rparr> cfg n) = Rewrite) \<and>
     (loc \<le> loc' \<longrightarrow>
        decisionType (classify \<lparr> linesChanged = lc, locationsChanged = loc' \<rparr> cfg n) = Rewrite)"
  by (auto simp: decisionType_classify shouldUpdate_def split: if_splits)

theorem classify_monotone_witness:
  "decisionType (classify \<lparr> linesChanged = 21, locationsChanged = 1 \<rparr> DEFAULT_SESSION_CONFIG 0) = Rewrite
   \<and> decisionType (classify \<lparr> linesChanged = 40, locationsChanged = 1 \<rparr> DEFAULT_SESSION_CONFIG 0) = Rewrite
   \<and> decisionType (classify \<lparr> linesChanged = 21, locationsChanged = 9 \<rparr> DEFAULT_SESSION_CONFIG 0) = Rewrite"
proof -
  have rw: "decisionType (classify \<lparr> linesChanged = 21, locationsChanged = 1 \<rparr> DEFAULT_SESSION_CONFIG 0) = Rewrite"
    by (simp add: decisionType_classify shouldUpdate_def DEFAULT_SESSION_CONFIG_def)
  show ?thesis
    using rw classify_monotone [of 21 1 DEFAULT_SESSION_CONFIG 0 40 9] by simp
qed

text \<open>
  C7. The statistics of a sequence against itself are 0 lines and 0 locations, and for
  equal \<open>before\<close> and \<open>after\<close> the decision is \<open>update\<close> whenever the recent update count
  is below \<open>maxIterationsPerUpdate\<close>. The thresholds of lines and locations range over the
  non-negative integers, as the data model of the specification has them.
\<close>

theorem unchanged_content_is_update:
  "computeDiffStats x x = \<lparr> linesChanged = 0, locationsChanged = 0 \<rparr>
   \<and> (0 \<le> maxLinesForUpdate cfg \<and> 0 \<le> maxLocationsForUpdate cfg \<and>
      int n < maxIterationsPerUpdate cfg
      \<longrightarrow> decisionType (evaluate x x cfg n) = Update)"
  by (simp add: computeDiffStats_same evaluate_def decisionType_classify shouldUpdate_def)

theorem unchanged_content_is_update_witness:
  "computeDiffStats [''a'', ''b''] [''a'', ''b''] = \<lparr> linesChanged = 0, locationsChanged = 0 \<rparr>
   \<and> decisionType (evaluate [''a'', ''b''] [''a'', ''b''] DEFAULT_SESSION_CONFIG 3) = Update"
  using unchanged_content_is_update [of "[''a'', ''b'']" DEFAULT_SESSION_CONFIG 3]
  by (simp add: DEFAULT_SESSION_CONFIG_def)

section \<open>The rationale\<close>

lemma show_nat_32: "show_nat 32 = ''32''"
  by (simp add: show_nat.simps [of 32] show_nat.simps [of 3] digit_char_def)

lemma show_int_20: "show_int 20 = ''20''"
  by (simp add: show_int_def show_nat.simps [of 20] show_nat.simps [of 2] digit_char_def)

text \<open>
  C4. When the decision is \<open>rewrite\<close>, the rationale names each violated condition on its
  own: it contains the phrase \<open>lines exceeds\<close> exactly when the changed lines exceed
  \<open>maxLinesForUpdate\<close>, the phrase \<open>locations exceeds\<close> exactly when the changed locations
  exceed \<open>maxLocationsForUpdate\<close>, and the phrase \<open>Max iterations reached\<close> exactly when the
  recent update count has reached \<open>maxIterationsPerUpdate\<close>. For an empty \<open>before\<close> and any
  \<open>after\<close> of 32 lines, with the default thresholds (20 lines, 5 locations, 4 iterations)
  and no recent update, the statistics are 32 lines in 1 location, the decision is
  \<open>rewrite\<close>, and the rationale names the line count and not the location count.
\<close>

theorem rewrite_rationale_names_violations:
  "(decisionType (classify stats cfg n) = Rewrite \<longrightarrow>
      (sublist ''lines exceeds'' (reasoning (classify stats cfg n))
         \<longleftrightarrow> int (linesChanged stats) > maxLinesForUpdate cfg) \<and>
      (sublist ''locations exceeds'' (reasoning (classify stats cfg n))
         \<longleftrightarrow> int (locationsChanged stats) > maxLocationsForUpdate cfg) \<and>
      (sublist ''Max iterations reached'' (reasoning (classify stats cfg n))
         \<longleftrightarrow> int n \<ge> maxIterationsPerUpdate cfg))
   \<and> (length after = 32 \<longrightarrow>
      rec_linesChanged (evaluate [] after DEFAULT_SESSION_CONFIG 0) = 32 \<and>
      rec_locationsChanged (evaluate [] after DEFAULT_SESSION_CONFIG 0) = 1 \<and>
      decisionType (evaluate [] after DEFAULT_SESSION_CONFIG 0) = Rewrite \<and>
      reasoning (evaluate [] after DEFAULT_SESSION_CONFIG 0) =
        ''Change requires rewrite: 32 lines exceeds 20 limit'' \<and>
      sublist ''lines exceeds'' (reasoning (evaluate [] after DEFAULT_SESSION_CONFIG 0)) \<and>
      \<not> sublist ''locations exceeds'' (reasoning (evaluate [] after DEFAULT_SESSION_CONFIG 0)))"
proof (intro conjI impI)
  assume rw: "decisionType (classify stats cfg n) = Rewrite"
  then have r: "reasoning (classify stats cfg n) = rewrite_reasoning stats cfg n"
    by (simp add: classify_def split: if_splits)
  show "sublist ''lines exceeds'' (reasoning (classify stats cfg n))
         \<longleftrightarrow> int (linesChanged stats) > maxLinesForUpdate cfg"
    unfolding r by (rule rewrite_mentions_lines)
  show "sublist ''locations exceeds'' (reasoning (classify stats cfg n))
         \<longleftrightarrow> int (locationsChanged stats) > maxLocationsForUpdate cfg"
    unfolding r by (rule rewrite_mentions_locations)
  show "sublist ''Max iterations reached'' (reasoning (classify stats cfg n))
         \<longleftrightarrow> int n \<ge> maxIterationsPerUpdate cfg"
    unfolding r by (rule rewrite_mentions_iterations)
next
  assume len: "length after = 32"
  then have ne: "after \<noteq> []" by auto
  have st: "computeDiffStats [] after = \<lparr> linesChanged = 32, locationsChanged = 1 \<rparr>"
    using computeDiffStats_creation [OF ne] len by simp
  have su: "\<not> shouldUpdate \<lparr> linesChanged = 32, locationsChanged = 1 \<rparr> DEFAULT_SESSION_CONFIG 0"
    by (simp add: shouldUpdate_def DEFAULT_SESSION_CONFIG_def)
  have ev: "evaluate [] after DEFAULT_SESSION_CONFIG 0 =
     classify \<lparr> linesChanged = 32, locationsChanged = 1 \<rparr> DEFAULT_SESSION_CONFIG 0"
    by (simp add: evaluate_def st)
  show "rec_linesChanged (evaluate [] after DEFAULT_SESSION_CONFIG 0) = 32"
    by (simp add: ev classify_def)
  show "rec_locationsChanged (evaluate [] after DEFAULT_SESSION_CONFIG 0) = 1"
    by (simp add: ev classify_def)
  show "decisionType (evaluate [] after DEFAULT_SESSION_CONFIG 0) = Rewrite"
    using su by (simp add: ev classify_def)
  have rs: "reasoning (evaluate [] after DEFAULT_SESSION_CONFIG 0) =
      rewrite_reasoning \<lparr> linesChanged = 32, locationsChanged = 1 \<rparr> DEFAULT_SESSION_CONFIG 0"
    using su by (simp add: ev classify_def)
  show "reasoning (evaluate [] after DEFAULT_SESSION_CONFIG 0) =
        ''Change requires rewrite: 32 lines exceeds 20 limit''"
    unfolding rs
    by (simp add: rewrite_reasoning_def DEFAULT_SESSION_CONFIG_def show_nat_32 show_int_20
        trim_def is_space_def)
  show "sublist ''lines exceeds'' (reasoning (evaluate [] after DEFAULT_SESSION_CONFIG 0))"
    unfolding rs by (simp add: rewrite_mentions_lines DEFAULT_SESSION_CONFIG_def)
  show "\<not> sublist ''locations exceeds'' (reasoning (evaluate [] after DEFAULT_SESSION_CONFIG 0))"
    unfolding rs by (simp add: rewrite_mentions_locations DEFAULT_SESSION_CONFIG_def)
qed

theorem rewrite_rationale_names_violations_witness:
  "decisionType (classify \<lparr> linesChanged = 30, locationsChanged = 7 \<rparr> DEFAULT_SESSION_CONFIG 2) = Rewrite
   \<and> sublist ''lines exceeds''
       (reasoning (classify \<lparr> linesChanged = 30, locationsChanged = 7 \<rparr> DEFAULT_SESSION_CONFIG 2))
   \<and> sublist ''locations exceeds''
       (reasoning (classify \<lparr> linesChanged = 30, locationsChanged = 7 \<rparr> DEFAULT_SESSION_CONFIG 2))
   \<and> \<not> sublist ''Max iterations reached''
       (reasoning (classify \<lparr> linesChanged = 30, locationsChanged = 7 \<rparr> DEFAULT_SESSION_CONFIG 2))
   \<and> length (replicate 32 ''x'') = 32
   \<and> reasoning (evaluate [] (replicate 32 ''x'') DEFAULT_SESSION_CONFIG 0) =
        ''Change requires rewrite: 32 lines exceeds 20 limit''"
proof -
  have rw: "decisionType (classify \<lparr> linesChanged = 30, locationsChanged = 7 \<rparr> DEFAULT_SESSION_CONFIG 2) = Rewrite"
    by (simp add: classify_def shouldUpdate_def DEFAULT_SESSION_CONFIG_def)
  have len: "length (replicate 32 ''x'') = 32" by simp
  show ?thesis
    using rw len
      rewrite_rationale_names_violations
        [of "\<lparr> linesChanged = 30, locationsChanged = 7 \<rparr>" DEFAULT_SESSION_CONFIG 2 "replicate 32 ''x''"]
    by (simp add: DEFAULT_SESSION_CONFIG_def)
qed

section \<open>The handler\<close>

lemma classify_thresholds_only:
  assumes "maxLinesForUpdate cfg = maxLinesForUpdate cfg'"
    and "maxLocationsForUpdate cfg = maxLocationsForUpdate cfg'"
    and "maxIterationsPerUpdate cfg = maxIterationsPerUpdate cfg'"
  shows "classify stats cfg n = classify stats cfg' n"
  using assms
  by (simp add: classify_def shouldUpdate_def update_reasoning_def rewrite_reasoning_def)

lemma analyze_change_found:
  assumes "getArtifact st artifactId = Some a"
    and "getSession st (artifact_sessionId a) = Some s"
  shows "analyze_change st now artifactId newContent =
           Inr (evaluate (split_lines (content a)) (split_lines newContent) (config s)
                  (length (recentUpdates st now (session_id s) artifactId)))"
  using assms by (simp add: analyze_change_def evaluate_def)

lemma example_lookup:
  "getArtifact (example_storage cfg ds) ''a1'' =
     Some \<lparr> artifact_sessionId = ''s1'', content = ''a'' @ [CHR 0x0A] @ ''b'' @ [CHR 0x0A] @ ''c'' \<rparr>"
  "getSession (example_storage cfg ds) ''s1'' = Some \<lparr> session_id = ''s1'', config = cfg \<rparr>"
  by (simp_all add: getArtifact_def getSession_def example_storage_def)

lemma example_recent:
  "length (recentUpdates (example_storage cfg [example_update 1000, example_update 5000000]) 5000500 ''s1'' ''a1'') = 1"
  "length (recentUpdates (example_storage cfg' [example_update 42]) 100 ''s1'' ''a1'') = 1"
  by (simp_all add: recentUpdates_def getDecisions_def example_storage_def example_update_def)

lemma example_split:
  "split_lines (''a'' @ [CHR 0x0A] @ ''b'' @ [CHR 0x0A] @ ''c'') = [''a'', ''b'', ''c'']"
  "split_lines (''a'' @ [CHR 0x0A] @ ''x'' @ [CHR 0x0A] @ ''c'') = [''a'', ''x'', ''c'']"
  by simp_all



lemma example_same:
  "computeDiffStats [''a'', ''b'', ''c''] [''a'', ''b'', ''c''] = \<lparr> linesChanged = 0, locationsChanged = 0 \<rparr>"
  by (rule computeDiffStats_same)

lemma example_no_decisions:
  "recentUpdates (example_storage cfg []) now sid aid = []"
  by (simp add: recentUpdates_def getDecisions_def example_storage_def)




end
